theory Spec2Isabelle
  imports Complex_Main "HOL-Library.Char_ord" "HOL-Library.List_Lexorder"
begin

section \<open>Python values and errors\<close>

text \<open>
  The exceptions the two source files can raise. \<open>AlreadyInRecording\<close> and
  \<open>InOtherRecording\<close> are the two plain \<open>Exception\<close>s of \<open>Recording.add_signal\<close>,
  told apart by their messages (the specification calls them DuplicateURI and
  SignalOwnedElsewhere; it calls \<open>ValueError\<close> InvalidArgument).
\<close>

datatype error =
    ValueError | TypeError | IndexError | KeyError | AttributeError | ZeroDivisionError
  | OverflowError
  | AlreadyInRecording | InOtherRecording

text \<open>Python's \<open>xs[a:b]\<close>: negative bounds count from the end, all bounds are clipped.\<close>

definition py_slice :: "'a list \<Rightarrow> int \<Rightarrow> int \<Rightarrow> 'a list" where
  "py_slice xs a b =
     (let n = int (length xs);
          lo = (if a < 0 then max 0 (a + n) else min a n);
          hi = (if b < 0 then max 0 (b + n) else min b n)
      in take (nat (hi - lo)) (drop (nat lo) xs))"

text \<open>Python's \<open>xs[i]\<close>: a negative index counts from the end, out of range raises.\<close>

definition py_index :: "'a list \<Rightarrow> int \<Rightarrow> error + 'a" where
  "py_index xs i =
     (if 0 \<le> i \<and> i < int (length xs) then Inr (xs ! nat i)
      else if i < 0 \<and> - int (length xs) \<le> i then Inr (xs ! nat (i + int (length xs)))
      else Inl IndexError)"

text \<open>Python's \<open>int(x)\<close> on a fractional number truncates towards zero. Times and rates
  are rational numbers: the values of the floating-point numbers of the source.\<close>

definition py_int :: "rat \<Rightarrow> int" where
  "py_int x = (if 0 \<le> x then \<lfloor>x\<rfloor> else \<lceil>x\<rceil>)"

section \<open>Clocks, time series and data segments\<close>

text \<open>
  Modelled from the spec: the classes \<open>Clock\<close>, \<open>UniformClock\<close>, \<open>TimeSeries\<close>,
  \<open>UniformTimeSeries\<close> and \<open>DataSegment\<close> of \<open>biosignalml.data\<close> are imported by the
  source and not part of it. A uniform clock holds a rate, an explicit clock its URI and
  one timestamp per sample; a data segment pairs a start with a time series.
\<close>

datatype clock = UniformClock rat | Clock string "rat list"

datatype 'v timeseries = UniformTimeSeries "'v list" rat | TimeSeries "rat list" "'v list"

datatype 'v datasegment = DataSegment rat "'v timeseries"

record Interval =
  start :: rat
  end' :: rat

text \<open>
  Modelled from the spec: \<open>Clock.index\<close> (index at a time). Uniform: \<open>round(time * rate)\<close>;
  explicit: the position of the first timestamp not below the time, or the number of
  timestamps if there is none.
\<close>

fun clock_index :: "clock \<Rightarrow> rat \<Rightarrow> int" where
  "clock_index (UniformClock r) t = round (t * r)"
| "clock_index (Clock u ts) t = int (length (takeWhile (\<lambda>x. x < t) ts))"

text \<open>
  Modelled from the spec: \<open>clock[i]\<close> (time at an index) on a uniform clock is
  \<open>index / rate\<close>; Python raises on a zero rate.
\<close>

definition uniform_time_at :: "rat \<Rightarrow> int \<Rightarrow> error + rat" where
  "uniform_time_at r i = (if r = 0 then Inl ZeroDivisionError else Inr (of_int i / r))"

text \<open>
  Modelled from the spec: \<open>clock[a:b]\<close> on an explicit clock is the slice of its
  timestamps.
\<close>

definition clock_slice :: "rat list \<Rightarrow> int \<Rightarrow> int \<Rightarrow> rat list" where
  "clock_slice ts a b = py_slice ts a b"

fun values_of :: "'v datasegment \<Rightarrow> 'v list" where
  "values_of (DataSegment s (UniformTimeSeries d r)) = d"
| "values_of (DataSegment s (TimeSeries ts d)) = d"

section \<open>The signal classes\<close>

text \<open>
  The store handle \<open>_h5\<close> of a signal is an object of the absent module \<open>h5recording\<close>;
  the source uses its \<open>len()\<close> and its slicing \<open>_h5[a:b]\<close>, which are the two fields here.
  A Python attribute \<open>_name\<close> is written \<open>name'\<close> throughout.
\<close>

record 'v H5Signal =
  h5_len :: int
  h5_getslice :: "int \<Rightarrow> int \<Rightarrow> 'v list"

text \<open>A store backed by a sequence of samples, sliced as Python slices a sequence.\<close>

definition list_store :: "'v list \<Rightarrow> 'v H5Signal" where
  "list_store xs = \<lparr>h5_len = int (length xs), h5_getslice = py_slice xs\<rparr>"

text \<open>
  \<open>Metadata\<close>, \<open>Signal\<close> and \<open>HDF5Signal\<close> follow the class hierarchy. \<open>recording\<close> holds
  \<open>str()\<close> of the signal's recording reference when that reference is truthy and \<open>None\<close>
  otherwise: this is all \<open>add_signal\<close> looks at. \<open>MAXPOINTS\<close> is the class constant
  \<open>BSMLSignal.MAXPOINTS\<close> of the absent \<open>biosignalml.formats\<close>, carried as a field.
\<close>

record Metadata =
  uri :: string

record Signal = Metadata +
  recording :: "string option"

record 'v HDF5Signal = Signal +
  rate :: "rat option"
  clock :: "clock option"
  h5' :: "'v H5Signal option"
  MAXPOINTS :: int

text \<open>\<open>HDF5Signal.__len__\<close>\<close>

definition len :: "'v HDF5Signal \<Rightarrow> int" where
  "len self = (case h5' self of None \<Rightarrow> 0 | Some s \<Rightarrow> h5_len s)"

section \<open>HDF5Signal.read\<close>

text \<open>Lines 66 to 71: the chunk cap. \<open>if maxduration:\<close> and \<open>if maxpoints:\<close> test
  truthiness, so \<open>None\<close> and zero both take the else branch.

  Line 67, \<open>pts = int(self.rate*maxduration + 0.5)\<close>, is arithmetic in binary floating
  point: the product and the sum are each rounded, and \<open>int()\<close> raises when the result is
  not finite. What it gives for a rate and a duration, an integer or an exception, is the
  parameter \<open>fp\<close> of the model, of which nothing is assumed. Without a rate the product
  raises \<open>TypeError\<close> before any arithmetic.\<close>

definition truthy :: "'a::zero option \<Rightarrow> bool" where
  "truthy x = (case x of None \<Rightarrow> False | Some v \<Rightarrow> v \<noteq> 0)"

definition resolve_maxpoints ::
  "(rat \<Rightarrow> rat \<Rightarrow> error + int) \<Rightarrow> int \<Rightarrow> rat option \<Rightarrow> rat option \<Rightarrow> int option \<Rightarrow> error + int" where
  "resolve_maxpoints fp MAXP rate' maxduration maxpoints =
     (case (if truthy maxduration
            then (case rate' of
                    None \<Rightarrow> Inl TypeError
                  | Some r \<Rightarrow>
                      (case fp r (the maxduration) of
                         Inl e \<Rightarrow> Inl e
                       | Inr pts \<Rightarrow>
                           if truthy maxpoints then Inr (Some (min (the maxpoints) pts))
                           else Inr (Some pts)))
            else Inr maxpoints) of
        Inl e \<Rightarrow> Inl e
      | Inr None \<Rightarrow> Inr MAXP
      | Inr (Some m) \<Rightarrow> if \<not> (0 < m \<and> m \<le> MAXP) then Inr MAXP else Inr m)"

text \<open>Lines 75 and 76: an interval is turned into a segment by the clock.\<close>

definition interval_segment ::
  "clock option \<Rightarrow> Interval option \<Rightarrow> (int \<times> int) option \<Rightarrow> error + (int \<times> int) option" where
  "interval_segment c interval segment =
     (case interval of
        None \<Rightarrow> Inr segment
      | Some i \<Rightarrow>
          (case c of
             None \<Rightarrow> Inl AttributeError
           | Some k \<Rightarrow> Inr (Some (clock_index k (start i), clock_index k (end' i)))))"

text \<open>Lines 78 to 86: the start position and the number of samples to read.\<close>

definition segment_range :: "int \<Rightarrow> (int \<times> int) option \<Rightarrow> int \<times> int" where
  "segment_range n segment =
     (case segment of
        None \<Rightarrow> (0, n)
      | Some sg \<Rightarrow>
          let seg = (if fst sg \<le> snd sg then sg else (snd sg, fst sg));
              startpos = max 0 (fst seg)
          in (startpos, min n (snd seg + 1) - startpos))"

text \<open>Lines 64 to 86, what runs before the loop: the state of the loop is
  \<open>(startpos, length, maxpoints)\<close>.\<close>

definition read_start ::
  "(rat \<Rightarrow> rat \<Rightarrow> error + int) \<Rightarrow> 'v HDF5Signal \<Rightarrow> Interval option \<Rightarrow> (int \<times> int) option \<Rightarrow> rat option \<Rightarrow> int option
     \<Rightarrow> error + (int \<times> int \<times> int)" where
  "read_start fp self interval segment maxduration maxpoints =
     (if interval \<noteq> None \<and> segment \<noteq> None then Inl ValueError
      else case resolve_maxpoints fp (MAXPOINTS self) (rate self) maxduration maxpoints of
        Inl e \<Rightarrow> Inl e
      | Inr mp \<Rightarrow>
          (case interval_segment (clock self) interval segment of
             Inl e \<Rightarrow> Inl e
           | Inr sg \<Rightarrow>
               let (startpos, length') = segment_range (len self) sg
               in Inr (startpos, length', mp)))"

text \<open>Lines 91 to 94: the segment built around the data of one chunk.\<close>

definition make_segment ::
  "clock option \<Rightarrow> int \<Rightarrow> int \<Rightarrow> 'v list \<Rightarrow> error + 'v datasegment" where
  "make_segment c startpos maxpoints data =
     (case c of
        Some (UniformClock r) \<Rightarrow>
          (case uniform_time_at r startpos of
             Inl e \<Rightarrow> Inl e
           | Inr t \<Rightarrow> Inr (DataSegment t (UniformTimeSeries data r)))
      | Some (Clock u ts) \<Rightarrow>
          Inr (DataSegment 0 (TimeSeries (clock_slice ts startpos (startpos + maxpoints)) data))
      | None \<Rightarrow> Inl TypeError)"

text \<open>Lines 89 to 96: one pass through the body of the loop, entered with
  \<open>length > 0\<close>. It gives the segment yielded and the state after lines 95 and 96.\<close>

definition read_body ::
  "'v HDF5Signal \<Rightarrow> int \<times> int \<times> int \<Rightarrow> error + ('v datasegment \<times> (int \<times> int \<times> int))" where
  "read_body self st =
     (let (startpos, length', maxpoints) = st;
          maxpoints = (if maxpoints > length' then length' else maxpoints)
      in case h5' self of
           None \<Rightarrow> Inl TypeError
         | Some s \<Rightarrow>
             let data = h5_getslice s startpos (startpos + maxpoints)
             in (case make_segment (clock self) startpos maxpoints data of
                   Inl e \<Rightarrow> Inl e
                 | Inr seg \<Rightarrow>
                     Inr (seg, (startpos + int (length data), length' - int (length data),
                                maxpoints))))"

text \<open>
  \<open>read\<close> is a generator function: calling it runs none of its body and returns a
  generator object; each \<open>next()\<close> runs the body up to the next \<open>yield\<close>. A generator is
  either not yet started (it holds the arguments of the call), suspended at the \<open>yield\<close>
  (it holds the local variables; the two assignments after the \<open>yield\<close> touch only these,
  so the state kept is the one after them), or finished.
\<close>

datatype generator =
    Created "Interval option" "(int \<times> int) option" "rat option" "int option"
  | Suspended "int \<times> int \<times> int"
  | Finished

definition read ::
  "'v HDF5Signal \<Rightarrow> Interval option \<Rightarrow> (int \<times> int) option \<Rightarrow> rat option \<Rightarrow> int option
     \<Rightarrow> generator" where
  "read self interval segment maxduration maxpoints =
     Created interval segment maxduration maxpoints"

text \<open>The loop test of line 88 followed by one pass: \<open>None\<close> is the end of the
  iteration (\<open>StopIteration\<close>).\<close>

definition read_loop ::
  "'v HDF5Signal \<Rightarrow> int \<times> int \<times> int \<Rightarrow> error + ('v datasegment \<times> generator) option" where
  "read_loop self st =
     (if fst (snd st) > 0
      then (case read_body self st of
              Inl e \<Rightarrow> Inl e
            | Inr (seg, st') \<Rightarrow> Inr (Some (seg, Suspended st')))
      else Inr None)"

text \<open>\<open>next()\<close> on the generator. An exception leaves the generator finished.\<close>

fun gen_next ::
  "(rat \<Rightarrow> rat \<Rightarrow> error + int) \<Rightarrow> 'v HDF5Signal \<Rightarrow> generator \<Rightarrow> error + ('v datasegment \<times> generator) option" where
  "gen_next fp self (Created interval segment maxduration maxpoints) =
     (case read_start fp self interval segment maxduration maxpoints of
        Inl e \<Rightarrow> Inl e
      | Inr st \<Rightarrow> read_loop self st)"
| "gen_next fp self (Suspended st) = read_loop self st"
| "gen_next fp self Finished = Inr None"

text \<open>
  Running a generator to its end, as \<open>list(...)\<close> does: the segments yielded, or the
  exception raised on the way. The iteration may go on for ever; then there is no result.
\<close>

partial_function (option) drain ::
  "(rat \<Rightarrow> rat \<Rightarrow> error + int) \<Rightarrow> 'v HDF5Signal \<Rightarrow> generator \<Rightarrow> 'v datasegment list
     \<Rightarrow> (error + 'v datasegment list) option"
  where
  "drain fp self g acc =
     (case gen_next fp self g of
        Inl e \<Rightarrow> Some (Inl e)
      | Inr None \<Rightarrow> Some (Inr acc)
      | Inr (Some (seg, g')) \<Rightarrow> drain fp self g' (acc @ [seg]))"

definition read_all ::
  "(rat \<Rightarrow> rat \<Rightarrow> error + int) \<Rightarrow> 'v HDF5Signal \<Rightarrow> Interval option \<Rightarrow> (int \<times> int) option \<Rightarrow> rat option \<Rightarrow> int option
     \<Rightarrow> (error + 'v datasegment list) option" where
  "read_all fp self interval segment maxduration maxpoints =
     drain fp self (read self interval segment maxduration maxpoints) []"

section \<open>HDF5Signal.append\<close>

text \<open>
  The store of a recording, \<open>self.recording._h5\<close>, is an \<open>H5Recording\<close> of the absent
  module \<open>h5recording\<close>. \<open>append\<close> takes its two operations \<open>extend_clock\<close> and
  \<open>extend_signal\<close> as parameters, and \<open>times_of\<close> for \<open>timeseries.time.times\<close> of the
  absent \<open>biosignalml.data\<close>. The store is \<open>None\<close> when the recording has none.
\<close>

fun data_of :: "'v timeseries \<Rightarrow> 'v list" where
  "data_of (UniformTimeSeries d r) = d"
| "data_of (TimeSeries ts d) = d"

definition append ::
  "(string \<Rightarrow> rat list \<Rightarrow> 'h \<Rightarrow> error + 'h) \<Rightarrow> (string \<Rightarrow> 'v list \<Rightarrow> 'h \<Rightarrow> error + 'h)
     \<Rightarrow> ('v timeseries \<Rightarrow> error + rat list)
     \<Rightarrow> 'v HDF5Signal \<Rightarrow> 'h option \<Rightarrow> 'v timeseries \<Rightarrow> error + 'h" where
  "append extend_clock extend_signal times_of self store timeseries =
     (case store of
        None \<Rightarrow> Inl AttributeError
      | Some h \<Rightarrow>
          (case (case clock self of
                   Some (Clock u ts) \<Rightarrow>
                     (case times_of timeseries of
                        Inl e \<Rightarrow> Inl e
                      | Inr new_times \<Rightarrow> extend_clock u new_times h)
                 | _ \<Rightarrow> Inr h) of
             Inl e \<Rightarrow> Inl e
           | Inr h1 \<Rightarrow> extend_signal (uri self) (data_of timeseries) h1))"

text \<open>
  Modelled from the spec: a store that keeps the timestamps of each clock and the values
  of each signal by URI. Extending a clock fails with InvalidArgument (\<open>ValueError\<close>) when
  the new times are not non-decreasing or start below the last stored time; extending a
  signal appends the values. The timestamps of a uniform series do not exist.
\<close>

record 'v H5Recording =
  h5_clocks :: "string \<rightharpoonup> rat list"
  h5_values :: "string \<rightharpoonup> 'v list"

definition h5_extend_clock :: "string \<Rightarrow> rat list \<Rightarrow> 'v H5Recording \<Rightarrow> error + 'v H5Recording"
  where
  "h5_extend_clock u new_times h =
     (case h5_clocks h u of
        None \<Rightarrow> Inl KeyError
      | Some old \<Rightarrow>
          if sorted (old @ new_times) then Inr (h\<lparr>h5_clocks := (h5_clocks h)(u \<mapsto> old @ new_times)\<rparr>)
          else Inl ValueError)"

definition h5_extend_signal :: "string \<Rightarrow> 'v list \<Rightarrow> 'v H5Recording \<Rightarrow> error + 'v H5Recording"
  where
  "h5_extend_signal u vs h =
     (case h5_values h u of
        None \<Rightarrow> Inl KeyError
      | Some old \<Rightarrow> Inr (h\<lparr>h5_values := (h5_values h)(u \<mapsto> old @ vs)\<rparr>))"

fun series_times :: "'v timeseries \<Rightarrow> error + rat list" where
  "series_times (TimeSeries ts d) = Inr ts"
| "series_times (UniformTimeSeries d r) = Inl AttributeError"

section \<open>Recording\<close>

text \<open>
  A recording keeps its signals in the dictionary \<open>_signals\<close>, keyed by \<open>str(uri)\<close>, and
  the keys in the list \<open>_signal_uris\<close>, in the order of insertion. URIs are strings:
  the class \<open>Uri\<close> of the absent \<open>biosignalml.rdfmodel\<close> is taken to compare as its
  \<open>str()\<close> does. \<open>obj_str\<close> is \<open>str()\<close> of the recording object itself, which the class
  does not define (it is Python's default text for the object).
\<close>

record 's Recording = Metadata +
  signals' :: "string \<rightharpoonup> 's"
  signal_uris' :: "string list"
  obj_str :: string

text \<open>\<open>Recording.add_signal\<close>: the index returned and the recording after the call. The
  signal stored is the signal passed, with its \<open>recording\<close> set.\<close>

definition add_signal ::
  "('z Signal_scheme) Recording \<Rightarrow> 'z Signal_scheme
     \<Rightarrow> error + (int \<times> ('z Signal_scheme) Recording)" where
  "add_signal self signal =
     (if uri signal \<in> set (signal_uris' self) then Inl AlreadyInRecording
      else if (case recording signal of None \<Rightarrow> False | Some r \<Rightarrow> r \<noteq> uri self)
      then Inl InOtherRecording
      else
        let signal = signal\<lparr>recording := Some (obj_str self)\<rparr>;
            uris = signal_uris' self @ [uri signal];
            sigs = (signals' self)(uri signal \<mapsto> signal)
        in Inr (int (length uris) - 1, self\<lparr>signals' := sigs, signal_uris' := uris\<rparr>))"

text \<open>A dictionary lookup for each key of a list, as the list comprehension of
  \<open>signals\<close> does; a missing key raises.\<close>

fun lookup_all :: "(string \<rightharpoonup> 's) \<Rightarrow> string list \<Rightarrow> error + 's list" where
  "lookup_all m [] = Inr []"
| "lookup_all m (k # ks) =
     (case m k of
        None \<Rightarrow> Inl KeyError
      | Some s \<Rightarrow> (case lookup_all m ks of Inl e \<Rightarrow> Inl e | Inr ss \<Rightarrow> Inr (s # ss)))"

text \<open>\<open>Recording.signals\<close>\<close>

definition signals :: "'s Recording \<Rightarrow> error + 's list" where
  "signals self = lookup_all (signals' self) (sort (signal_uris' self))"

text \<open>\<open>Recording.get_signal\<close>\<close>

definition get_signal :: "'s Recording \<Rightarrow> string option \<Rightarrow> int \<Rightarrow> error + 's" where
  "get_signal self uri_arg index =
     (case (case uri_arg of None \<Rightarrow> py_index (signal_uris' self) index | Some u \<Rightarrow> Inr u) of
        Inl e \<Rightarrow> Inl e
      | Inr u \<Rightarrow> (case signals' self u of None \<Rightarrow> Inl KeyError | Some s \<Rightarrow> Inr s))"

text \<open>\<open>Recording.__init__\<close>: a recording without signals.\<close>

definition new_recording :: "string \<Rightarrow> string \<Rightarrow> 's Recording" where
  "new_recording u repr =
     \<lparr>uri = u, signals' = Map.empty, signal_uris' = [], obj_str = repr\<rparr>"

section \<open>Predicates and the wording of the specification\<close>

text \<open>The clock of a signal from which a segment can be built: an explicit clock, or a
  uniform clock with a rate other than zero.\<close>

definition clock_ok :: "'v HDF5Signal \<Rightarrow> bool" where
  "clock_ok self =
     (case clock self of
        None \<Rightarrow> False
      | Some (UniformClock r) \<Rightarrow> r \<noteq> 0
      | Some (Clock u ts) \<Rightarrow> True)"

text \<open>A store that hands out at least one sample whenever it is asked for a non-empty
  range within its length.\<close>

definition responsive :: "'v H5Signal \<Rightarrow> bool" where
  "responsive s = (\<forall>a b. 0 \<le> a \<and> a < b \<and> b \<le> h5_len s \<longrightarrow> h5_getslice s a b \<noteq> [])"





text \<open>The point count of a duration in the words of the specification for explicit
  clocks: clock index arithmetic at the current read position, the index at the time of the
  cursor plus the duration, less the cursor.\<close>

definition clock_duration_points :: "clock \<Rightarrow> rat list \<Rightarrow> int \<Rightarrow> rat \<Rightarrow> int" where
  "clock_duration_points c ts cursor d = clock_index c (ts ! nat cursor + d) - cursor"

text \<open>What \<open>add_signal\<close> keeps true of a recording: the URIs listed are distinct and each
  is the key of a signal with that URI.\<close>

definition recording_inv :: "('z Metadata_scheme) Recording \<Rightarrow> bool" where
  "recording_inv self =
     (distinct (signal_uris' self) \<and>
      list_all (\<lambda>u. case signals' self u of None \<Rightarrow> False | Some s \<Rightarrow> uri s = u)
        (signal_uris' self))"

section \<open>Example signals, stores and recordings\<close>

text \<open>Line 67 carried out without rounding error. Binary floating point gives the same
  integer wherever the product and the sum are numbers it represents, as they are at
  every rate and duration used below (\<open>100 * 3 + 0.5\<close>, \<open>100 * 1 + 0.5\<close>,
  \<open>2 * 2 + 0.5\<close>).\<close>

definition exact_points :: "rat \<Rightarrow> rat \<Rightarrow> error + int" where
  "exact_points r d = Inr (py_int (r * d + 1 / 2))"

text \<open>A uniform signal of ten samples at 100 Hz, an explicit signal of four samples with
  no rate, and an explicit signal with irregular timestamps and a nominal rate of 2 Hz.\<close>

definition chan :: "int HDF5Signal" where
  "chan = \<lparr>uri = ''http://example.org/rec/chan'', recording = None, rate = Some 100,
            clock = Some (UniformClock 100),
            h5' = Some (list_store [10, 11, 12, 13, 14, 15, 16, 17, 18, 19]),
            MAXPOINTS = 50000\<rparr>"

definition timed :: "int HDF5Signal" where
  "timed = \<lparr>uri = ''http://example.org/rec/timed'', recording = None, rate = None,
             clock = Some (Clock ''http://example.org/rec/clock'' [0, 1 / 10, 3 / 10, 4 / 10]),
             h5' = Some (list_store [1, 2, 3, 4]), MAXPOINTS = 50000\<rparr>"

definition irregular :: "int HDF5Signal" where
  "irregular = \<lparr>uri = ''http://example.org/rec/irregular'', recording = None, rate = Some 2,
             clock = Some (Clock ''http://example.org/rec/clock'' [0, 1, 2, 10, 20, 30]),
             h5' = Some (list_store [1, 2, 3, 4, 5, 6]), MAXPOINTS = 50000\<rparr>"



text \<open>A store that reports four samples and returns none.\<close>

definition silent_store :: "nat H5Signal" where
  "silent_store = \<lparr>h5_len = 4, h5_getslice = (\<lambda>a b. [])\<rparr>"

definition silent_signal :: "nat HDF5Signal" where
  "silent_signal = \<lparr>uri = ''s'', recording = None, rate = Some 100,
     clock = Some (UniformClock 100), h5' = Some silent_store, MAXPOINTS = 50000\<rparr>"

text \<open>Signals and recordings: \<open>rec_b\<close> and \<open>rec_ba\<close> are \<open>rec0\<close> after adding
  \<open>sig_b\<close> and then \<open>sig_a\<close>.\<close>

definition sig_a :: Signal where
  "sig_a = \<lparr>uri = ''http://example.org/rec/a'', recording = None\<rparr>"

definition sig_b :: Signal where
  "sig_b = \<lparr>uri = ''http://example.org/rec/b'', recording = None\<rparr>"

definition sig_elsewhere :: Signal where
  "sig_elsewhere = \<lparr>uri = ''http://example.org/rec/c'', recording = Some ''http://example.org/other''\<rparr>"

definition rec0 :: "Signal Recording" where
  "rec0 = new_recording ''http://example.org/rec'' ''<Recording object>''"

definition rec_b :: "Signal Recording" where
  "rec_b = \<lparr>uri = ''http://example.org/rec'',
     signals' = [''http://example.org/rec/b'' \<mapsto> sig_b\<lparr>recording := Some ''<Recording object>''\<rparr>],
     signal_uris' = [''http://example.org/rec/b''],
     obj_str = ''<Recording object>''\<rparr>"

definition rec_ba :: "Signal Recording" where
  "rec_ba = \<lparr>uri = ''http://example.org/rec'',
     signals' = [''http://example.org/rec/b'' \<mapsto> sig_b\<lparr>recording := Some ''<Recording object>''\<rparr>,
                 ''http://example.org/rec/a'' \<mapsto> sig_a\<lparr>recording := Some ''<Recording object>''\<rparr>],
     signal_uris' = [''http://example.org/rec/b'', ''http://example.org/rec/a''],
     obj_str = ''<Recording object>''\<rparr>"

text \<open>A store of a recording holding the values of \<open>chan\<close> and \<open>timed\<close>.\<close>

definition store0 :: "int H5Recording" where
  "store0 = \<lparr>h5_clocks = [''http://example.org/rec/clock'' \<mapsto> [0, 1 / 10, 3 / 10, 4 / 10]],
              h5_values = [''http://example.org/rec/chan'' \<mapsto> [10, 11],
                           ''http://example.org/rec/timed'' \<mapsto> [1, 2, 3, 4]]\<rparr>"

section \<open>Slices\<close>

lemma py_slice_in_range:
  "0 \<le> a \<Longrightarrow> a \<le> b \<Longrightarrow> b \<le> int (length xs)
     \<Longrightarrow> py_slice xs a b = take (nat (b - a)) (drop (nat a) xs)"
  by (simp add: py_slice_def Let_def min_def)

lemma length_py_slice:
  "0 \<le> a \<Longrightarrow> a \<le> b \<Longrightarrow> b \<le> int (length xs) \<Longrightarrow> length (py_slice xs a b) = nat (b - a)"
  by (simp add: py_slice_in_range)

lemma py_slice_append:
  assumes "0 \<le> a" "a \<le> b" "b \<le> c" "c \<le> int (length xs)"
  shows "py_slice xs a b @ py_slice xs b c = py_slice xs a c"
proof -
  have c: "nat (c - a) = nat (b - a) + nat (c - b)" using assms by simp
  have d: "nat (b - a) + nat a = nat b" using assms by simp
  show ?thesis
    using assms by (simp add: py_slice_in_range c take_add d)
qed

lemma floor_numeral_div: "\<lfloor>(numeral a :: rat) / numeral b\<rfloor> = numeral a div numeral b"
  using floor_divide_of_int_eq [of "numeral a" "numeral b", where ?'a = rat] by simp

section \<open>Running a generator\<close>

lemma drain_stop: "gen_next fp self g = Inr None \<Longrightarrow> drain fp self g acc = Some (Inr acc)"
  by (subst drain.simps) simp

lemma drain_error: "gen_next fp self g = Inl e \<Longrightarrow> drain fp self g acc = Some (Inl e)"
  by (subst drain.simps) simp

lemma drain_yield:
  "gen_next fp self g = Inr (Some (seg, g')) \<Longrightarrow> drain fp self g acc = drain fp self g' (acc @ [seg])"
  by (subst drain.simps) simp

lemma read_all_start:
  "read_start fp self interval segment maxduration maxpoints = Inr st
     \<Longrightarrow> read_all fp self interval segment maxduration maxpoints = drain fp self (Suspended st) []"
  unfolding read_all_def read_def
  by (subst drain.simps, subst (2) drain.simps) simp

lemma read_all_error:
  "read_start fp self interval segment maxduration maxpoints = Inl e
     \<Longrightarrow> read_all fp self interval segment maxduration maxpoints = Some (Inl e)"
  unfolding read_all_def read_def by (simp add: drain_error)

lemma read_loop_done: "n \<le> 0 \<Longrightarrow> read_loop self (sp, n, mp) = Inr None"
  by (simp add: read_loop_def)

lemma read_start_no_interval:
  "read_start fp self None segment maxduration maxpoints =
     (case resolve_maxpoints fp (MAXPOINTS self) (rate self) maxduration maxpoints of
        Inl e \<Rightarrow> Inl e
      | Inr cap \<Rightarrow> Inr (fst (segment_range (len self) segment),
                       snd (segment_range (len self) segment), cap))"
  by (simp add: read_start_def interval_segment_def split: sum.splits prod.splits)

lemma resolve_maxpoints_range:
  "resolve_maxpoints fp M r d p = Inr cap \<Longrightarrow> 0 < M \<Longrightarrow> 0 < cap \<and> cap \<le> M"
  by (auto simp: resolve_maxpoints_def Let_def split: if_splits option.splits sum.splits)

lemma segment_range_bounds:
  "segment_range n sg = (sp, k) \<Longrightarrow> 0 \<le> sp \<and> sp + k \<le> n"
  by (auto simp: segment_range_def Let_def split: option.splits if_splits)

lemma read_start_bounds:
  assumes "read_start fp self interval segment maxduration maxpoints = Inr (sp, n, cap)"
    and "0 < MAXPOINTS self"
  shows "0 \<le> sp \<and> sp + n \<le> len self \<and> 0 < cap \<and> cap \<le> MAXPOINTS self"
  using assms
  by (auto simp: read_start_def split: if_splits sum.splits prod.splits
           dest: resolve_maxpoints_range segment_range_bounds)



lemma make_segment_ok:
  "clock_ok self \<Longrightarrow> \<exists>seg. make_segment (clock self) sp k data = Inr seg \<and> values_of seg = data"
  by (auto simp: clock_ok_def make_segment_def uniform_time_at_def split: option.splits clock.splits)


section \<open>The loop over a store backed by a sequence\<close>

lemma read_loop_list_store:
  assumes "h5' self = Some (list_store xs)" "clock_ok self"
    and "0 \<le> sp" "0 < n" "0 < mp" "sp + n \<le> int (length xs)"
  shows "\<exists>seg. read_loop self (sp, n, mp) =
            Inr (Some (seg, Suspended (sp + min mp n, n - min mp n, min mp n)))
          \<and> values_of seg = py_slice xs sp (sp + min mp n)"
proof -
  let ?k = "min mp n"
  have k: "0 < ?k" "sp + ?k \<le> int (length xs)" using assms by auto
  have len: "length (py_slice xs sp (sp + ?k)) = nat ?k"
    using assms k by (simp add: length_py_slice)
  obtain seg where seg: "make_segment (clock self) sp ?k (py_slice xs sp (sp + ?k)) = Inr seg"
    "values_of seg = py_slice xs sp (sp + ?k)"
    using make_segment_ok [OF assms(2)] by blast
  have kk: "(if mp > n then n else mp) = ?k" by (simp add: min_def)
  show ?thesis
    using assms(1,4) seg len k
    by (simp add: read_loop_def read_body_def kk list_store_def Let_def)
qed

lemma drain_list_store:
  assumes "h5' self = Some (list_store xs)" "clock_ok self"
  shows "0 \<le> sp \<Longrightarrow> 0 \<le> n \<Longrightarrow> 0 < mp \<Longrightarrow> sp + n \<le> int (length xs)
    \<Longrightarrow> \<exists>segs. drain fp self (Suspended (sp, n, mp)) acc = Some (Inr (acc @ segs))
          \<and> concat (map values_of segs) = py_slice xs sp (sp + n)
          \<and> sum_list (map (\<lambda>s. int (length (values_of s))) segs) = n"
proof (induction "nat n" arbitrary: sp n mp acc rule: less_induct)
  case less
  show ?case
  proof (cases "n = 0")
    case True
    have "gen_next fp self (Suspended (sp, n, mp)) = Inr None"
      using True by (simp add: read_loop_def)
    then have "drain fp self (Suspended (sp, n, mp)) acc = Some (Inr (acc @ []))"
      by (simp add: drain_stop)
    moreover have "py_slice xs sp (sp + n) = []"
      using True less.prems by (simp add: py_slice_in_range)
    ultimately show ?thesis using True by fastforce
  next
    case False
    then have n: "0 < n" using less.prems by simp
    let ?k = "min mp n"
    have k: "0 < ?k" "?k \<le> n" using n less.prems by auto
    obtain seg where seg:
      "read_loop self (sp, n, mp) = Inr (Some (seg, Suspended (sp + ?k, n - ?k, ?k)))"
      "values_of seg = py_slice xs sp (sp + ?k)"
      using read_loop_list_store [OF assms less.prems(1) n less.prems(3,4)] by blast
    have step: "drain fp self (Suspended (sp, n, mp)) acc
                  = drain fp self (Suspended (sp + ?k, n - ?k, ?k)) (acc @ [seg])"
      using seg(1) by (simp add: drain_yield)
    have "nat (n - ?k) < nat n" using k by simp
    from less.hyps [OF this, of "sp + ?k" "?k" "acc @ [seg]"]
    obtain segs where segs:
      "drain fp self (Suspended (sp + ?k, n - ?k, ?k)) (acc @ [seg]) = Some (Inr ((acc @ [seg]) @ segs))"
      "concat (map values_of segs) = py_slice xs (sp + ?k) (sp + ?k + (n - ?k))"
      "sum_list (map (\<lambda>s. int (length (values_of s))) segs) = n - ?k"
      using k less.prems by auto
    have cat: "py_slice xs sp (sp + ?k) @ py_slice xs (sp + ?k) (sp + n) = py_slice xs sp (sp + n)"
      using k less.prems by (intro py_slice_append) auto
    have len: "int (length (values_of seg)) = ?k"
      using seg(2) k less.prems by (simp add: length_py_slice)
    have "drain fp self (Suspended (sp, n, mp)) acc = Some (Inr (acc @ (seg # segs)))"
      using step segs(1) by simp
    moreover have "concat (map values_of (seg # segs)) = py_slice xs sp (sp + n)"
      using seg(2) segs(2) cat by simp
    moreover have "sum_list (map (\<lambda>s. int (length (values_of s))) (seg # segs)) = n"
      using len segs(3) by simp
    ultimately show ?thesis by blast
  qed
qed

lemma responsive_list_store: "responsive (list_store xs)"
  by (auto simp: responsive_def list_store_def py_slice_in_range)

lemma drain_terminates:
  assumes "h5' self = Some s" and "responsive s"
  shows "0 \<le> sp \<Longrightarrow> 0 < mp \<Longrightarrow> sp + n \<le> h5_len s
    \<Longrightarrow> drain fp self (Suspended (sp, n, mp)) acc \<noteq> None"
proof (induction "nat n" arbitrary: sp n mp acc rule: less_induct)
  case less
  show ?case
  proof (cases "0 < n")
    case False
    then have "gen_next fp self (Suspended (sp, n, mp)) = Inr None"
      by (simp add: read_loop_def)
    then show ?thesis by (simp add: drain_stop)
  next
    case True
    let ?k = "if mp > n then n else mp"
    let ?data = "h5_getslice s sp (sp + ?k)"
    have k: "0 < ?k" "sp + ?k \<le> h5_len s" using True less.prems by auto
    have data: "?data \<noteq> []"
      using assms(2) k less.prems(1) unfolding responsive_def by simp
    show ?thesis
    proof (cases "make_segment (clock self) sp ?k ?data")
      case (Inl e)
      then have "gen_next fp self (Suspended (sp, n, mp)) = Inl e"
        using True assms(1) by (simp add: read_loop_def read_body_def Let_def)
      then show ?thesis by (simp add: drain_error)
    next
      case (Inr seg)
      let ?st = "(sp + int (length ?data), n - int (length ?data), ?k)"
      have "gen_next fp self (Suspended (sp, n, mp)) = Inr (Some (seg, Suspended ?st))"
        using True assms(1) Inr by (simp add: read_loop_def read_body_def Let_def)
      then have step: "drain fp self (Suspended (sp, n, mp)) acc = drain fp self (Suspended ?st) (acc @ [seg])"
        by (rule drain_yield)
      have "nat (n - int (length ?data)) < nat n" using data True by (cases ?data) auto
      from less.hyps [OF this, of "sp + int (length ?data)" ?k "acc @ [seg]"]
      show ?thesis using step k less.prems by simp
    qed
  qed
qed

section \<open>The loop over a store that returns nothing\<close>

lemma silent_next:
  "0 < n \<Longrightarrow> \<exists>seg mp'. gen_next fp silent_signal (Suspended (sp, n, mp)) = Inr (Some (seg, Suspended (sp, n, mp')))"
  by (simp add: read_loop_def read_body_def Let_def silent_signal_def silent_store_def
        make_segment_def uniform_time_at_def)

lemma silent_drain:
  assumes "drain fp self g acc = Some y"
  shows "self = silent_signal \<longrightarrow> (\<forall>sp n mp. g = Suspended (sp, n, mp) \<longrightarrow> \<not> 0 < n)"
  using assms
proof (induction rule: drain.raw_induct [rotated 1, consumes 1])
  case (1 drain' fp self g acc y)
  show ?case
  proof (intro impI allI notI)
    fix sp n mp
    assume s: "self = silent_signal" and g: "g = Suspended (sp, n, mp)" and n: "0 < n"
    obtain seg mp' where nx: "gen_next fp silent_signal (Suspended (sp, n, mp)) = Inr (Some (seg, Suspended (sp, n, mp')))"
      using silent_next [OF n] by blast
    have "drain' fp self (Suspended (sp, n, mp')) (acc @ [seg]) = Some y"
      using 1(2) nx s g by simp
    from 1(1) [OF this] s n show False by simp
  qed
qed

section \<open>Recordings\<close>

lemma recording_inv_new: "recording_inv (new_recording u repr)"
  by (simp add: recording_inv_def new_recording_def)

lemma recording_inv_add_signal:
  assumes "recording_inv self" and "add_signal self signal = Inr (i, self')"
  shows "recording_inv self'"
  using assms
  by (auto simp: recording_inv_def add_signal_def Let_def list_all_iff split: if_splits option.splits)

lemma lookup_all_inv:
  assumes "\<forall>u \<in> set ks. \<exists>s. m u = Some s \<and> uri s = u"
  shows "\<exists>ss. lookup_all m ks = Inr ss \<and> map uri ss = ks"
  using assms
proof (induction ks)
  case Nil
  then show ?case by simp
next
  case (Cons k ks)
  then obtain s where s: "m k = Some s" "uri s = k" by auto
  from Cons obtain ss where ss: "lookup_all m ks = Inr ss" "map uri ss = ks" by auto
  show ?case using s ss by simp
qed

lemma add_signal_ok:
  assumes "uri signal \<notin> set (signal_uris' self)"
    and "recording signal = None \<or> recording signal = Some (uri self)"
  shows "add_signal self signal =
           Inr (int (length (signal_uris' self)),
                self\<lparr>signals' := (signals' self)(uri signal \<mapsto> signal\<lparr>recording := Some (obj_str self)\<rparr>),
                     signal_uris' := signal_uris' self @ [uri signal]\<rparr>)"
  using assms by (auto simp: add_signal_def Let_def)

lemma get_signal_last:
  "get_signal (self\<lparr>signals' := (signals' self)(u \<mapsto> s), signal_uris' := signal_uris' self @ [u]\<rparr>)
      None (int (length (signal_uris' self))) = Inr s"
  by (simp add: get_signal_def py_index_def Let_def)

lemma rec_b_add: "add_signal rec0 sig_b = Inr (0, rec_b)"
  by (simp add: add_signal_def rec0_def new_recording_def sig_b_def rec_b_def)

lemma rec_ba_add: "add_signal rec_b sig_a = Inr (1, rec_ba)"
  by (simp add: add_signal_def rec_b_def sig_a_def sig_b_def rec_ba_def)

lemma rec_ba_signals:
  "signals rec_ba = Inr [sig_a\<lparr>recording := Some ''<Recording object>''\<rparr>,
                         sig_b\<lparr>recording := Some ''<Recording object>''\<rparr>]"
  by (simp add: signals_def rec_ba_def)

lemma rec_ba_get0: "get_signal rec_ba None 0 = Inr (sig_b\<lparr>recording := Some ''<Recording object>''\<rparr>)"
  by (simp add: get_signal_def py_index_def rec_ba_def)

section \<open>Reads of the example signals\<close>

lemmas read_eval = floor_numeral_div exact_points_def read_all_def read_def drain.simps read_start_def resolve_maxpoints_def truthy_def
  interval_segment_def segment_range_def len_def read_loop_def read_body_def make_segment_def
  uniform_time_at_def clock_slice_def py_slice_def list_store_def py_int_def Let_def

lemma chan_read_chunks: "read_all exact_points chan None (Some (0, 9)) None (Some 3) =
  Some (Inr [DataSegment 0 (UniformTimeSeries [10, 11, 12] 100),
             DataSegment (3 / 100) (UniformTimeSeries [13, 14, 15] 100),
             DataSegment (6 / 100) (UniformTimeSeries [16, 17, 18] 100),
             DataSegment (9 / 100) (UniformTimeSeries [19] 100)])"
  by (simp add: read_eval chan_def)

lemma timed_read_interval: "read_all exact_points timed (Some \<lparr>start = 1 / 10, end' = 4 / 10\<rparr>) None None None =
  Some (Inr [DataSegment 0 (TimeSeries [1 / 10, 3 / 10, 4 / 10] [2, 3, 4])])"
  by (simp add: read_eval timed_def)

lemma timed_read_no_rate: "read_all exact_points timed None None (Some 1) None = Some (Inl TypeError)"
  by (simp add: read_eval timed_def)

section \<open>C1: what a read returns\<close>

text \<open>
  Claim C1. The statements before the loop resolve the addressing of a read to a start
  index and a count \<open>n\<close>, that is to the index range from \<open>start_index\<close> to
  \<open>end_index = start_index + n - 1\<close>, and the caps to a chunk cap. For a store backed by a
  sequence of samples (it returns every sample requested), whatever the addressing and the
  caps, the read ends, the values of the segments yielded, put end to end, are the stored
  values of that index range, and the lengths of the segments add up to
  \<open>end_index - start_index + 1\<close>.
\<close>

theorem read_round_trip:
  assumes "h5' self = Some (list_store xs)" and "clock_ok self" and "0 < MAXPOINTS self"
    and "read_start fp self interval segment maxduration maxpoints = Inr (start_index, n, cap)"
    and "0 \<le> n" and "end_index = start_index + n - 1"
  shows "\<exists>segs. read_all fp self interval segment maxduration maxpoints = Some (Inr segs)
           \<and> concat (map values_of segs) = py_slice xs start_index (end_index + 1)
           \<and> (\<Sum>s\<leftarrow>segs. int (length (values_of s))) = end_index - start_index + 1"
proof -
  have len: "len self = int (length xs)"
    using assms(1) by (simp add: len_def list_store_def)
  have b: "0 \<le> start_index" "start_index + n \<le> int (length xs)" "0 < cap"
    using read_start_bounds [OF assms(4,3)] len by auto
  from drain_list_store [OF assms(1,2) b(1) assms(5) b(3) b(2), where acc = "[]" and fp = fp]
  show ?thesis
    using assms(6) by (simp add: read_all_start [OF assms(4)])
qed

theorem read_round_trip_witness:
  "\<exists>segs. read_all exact_points chan None (Some (8, 2)) None (Some 3) = Some (Inr segs)
      \<and> concat (map values_of segs) = [12, 13, 14, 15, 16, 17, 18]
      \<and> (\<Sum>s\<leftarrow>segs. int (length (values_of s))) = 8 - 2 + 1"
proof -
  have h1: "h5' chan = Some (list_store [10, 11, 12, 13, 14, 15, 16, 17, 18, 19])"
    by (simp add: chan_def)
  have h2: "clock_ok chan" by (simp add: clock_ok_def chan_def)
  have h3: "0 < MAXPOINTS chan" by (simp add: chan_def)
  have h4: "read_start exact_points chan None (Some (8, 2)) None (Some 3) = Inr (2, 7, 3)"
    by (simp add: read_start_def resolve_maxpoints_def truthy_def interval_segment_def
          segment_range_def len_def chan_def list_store_def)
  have h5: "py_slice [10, 11, 12, 13, 14, 15, 16, 17, 18, 19 :: int] 2 (8 + 1)
              = [12, 13, 14, 15, 16, 17, 18]"
    by (simp add: py_slice_def)
  from read_round_trip [OF h1 h2 h3 h4, where end_index = 8] h5 show ?thesis by simp
qed

section \<open>C2: the origin of a segment\<close>




section \<open>C3: the chunk cap\<close>




section \<open>C4: a duration cap on an explicit clock\<close>

text \<open>
  Claim C4, at the input at which the code departs from it. The explicit signal
  \<open>irregular\<close> has the timestamps 0, 1, 2, 10, 20, 30 and the rate 2; it is read with
  \<open>maxduration = 2\<close>, for which line 67 gives \<open>int(2 * 2 + 0.5) = 4\<close>. The cap is taken
  once from the rate: the read yields a chunk of four samples, whose timestamps span ten
  seconds, and one of two, where clock index arithmetic at the cursor gives two samples at
  cursor 0 and one at cursor 4. On the explicit signal \<open>timed\<close>, which has no rate, the
  read with a duration raises \<open>TypeError\<close>.
\<close>

theorem duration_cap_exceeds_duration:
  assumes "fp 2 2 = Inr 4"
  shows "read_all fp irregular None None (Some 2) None =
     Some (Inr [DataSegment 0 (TimeSeries [0, 1, 2, 10] [1, 2, 3, 4]),
                DataSegment 0 (TimeSeries [20, 30] [5, 6])])
   \<and> clock_duration_points (Clock ''http://example.org/rec/clock'' [0, 1, 2, 10, 20, 30])
        [0, 1, 2, 10, 20, 30] 0 2 = 2
   \<and> clock_duration_points (Clock ''http://example.org/rec/clock'' [0, 1, 2, 10, 20, 30])
        [0, 1, 2, 10, 20, 30] 4 2 = 1
   \<and> read_all fp timed None None (Some 1) None = Some (Inl TypeError)"
proof -
  have cap: "resolve_maxpoints fp 50000 (Some 2) (Some 2) None = Inr 4"
    using assms by (simp add: resolve_maxpoints_def truthy_def)
  have st: "read_start fp irregular None None (Some 2) None = Inr (0, 6, 4)"
    using cap
    by (simp add: read_start_def interval_segment_def segment_range_def len_def irregular_def
          list_store_def)
  have n1: "gen_next fp irregular (Suspended (0, 6, 4))
      = Inr (Some (DataSegment 0 (TimeSeries [0, 1, 2, 10] [1, 2, 3, 4]), Suspended (4, 2, 4)))"
    by (simp add: read_loop_def read_body_def make_segment_def clock_slice_def py_slice_def
          list_store_def irregular_def Let_def)
  have n2: "gen_next fp irregular (Suspended (4, 2, 4))
      = Inr (Some (DataSegment 0 (TimeSeries [20, 30] [5, 6]), Suspended (6, 0, 2)))"
    by (simp add: read_loop_def read_body_def make_segment_def clock_slice_def py_slice_def
          list_store_def irregular_def Let_def)
  have n3: "gen_next fp irregular (Suspended (6, 0, 2)) = Inr None"
    by (simp add: read_loop_def)
  have 1: "read_all fp irregular None None (Some 2) None =
     Some (Inr [DataSegment 0 (TimeSeries [0, 1, 2, 10] [1, 2, 3, 4]),
                DataSegment 0 (TimeSeries [20, 30] [5, 6])])"
    by (simp add: read_all_start [OF st] drain_yield [OF n1] drain_yield [OF n2]
          drain_stop [OF n3])
  have "read_start fp timed None None (Some 1) None = Inl TypeError"
    by (simp add: read_start_def resolve_maxpoints_def truthy_def timed_def)
  then have 2: "read_all fp timed None None (Some 1) None = Some (Inl TypeError)"
    by (rule read_all_error)
  show ?thesis using 1 2 by (simp add: clock_duration_points_def)
qed

theorem duration_cap_exceeds_duration_witness:
  "exact_points 2 2 = Inr 4
   \<and> read_all exact_points irregular None None (Some 2) None =
     Some (Inr [DataSegment 0 (TimeSeries [0, 1, 2, 10] [1, 2, 3, 4]),
                DataSegment 0 (TimeSeries [20, 30] [5, 6])])
   \<and> read_all exact_points timed None None (Some 1) None = Some (Inl TypeError)"
proof -
  have h: "exact_points 2 2 = Inr 4"
    by (simp add: exact_points_def py_int_def floor_numeral_div)
  from duration_cap_exceeds_duration [where fp = exact_points, OF h] h show ?thesis by simp
qed

section \<open>C5: the end of the iteration\<close>

theorem silent_store_never_ends:
  "read_all exact_points silent_signal None None None None = None"
proof -
  have st: "read_start exact_points silent_signal None None None None = Inr (0, 4, 50000)"
    by (simp add: read_start_def resolve_maxpoints_def truthy_def interval_segment_def
          segment_range_def len_def silent_signal_def silent_store_def)
  have "drain exact_points silent_signal (Suspended (0, 4, 50000)) [] = None"
  proof (cases "drain exact_points silent_signal (Suspended (0, 4, 50000)) []")
    case (Some y)
    from silent_drain [OF Some] show ?thesis by simp
  qed simp
  then show ?thesis by (simp add: read_all_start [OF st])
qed

text \<open>
  Claim C5, amended. The iteration ends when the count of samples left is no longer
  positive, and it does end whenever the store hands out at least one sample for every
  non-empty request within its length (and \<open>MAXPOINTS\<close> is positive): each chunk then
  lowers the count. There is no test for a chunk of no samples.
\<close>

theorem read_terminates:
  assumes "0 < MAXPOINTS self"
    and "case h5' self of None \<Rightarrow> True | Some s \<Rightarrow> responsive s"
  shows "\<exists>res. read_all fp self interval segment maxduration maxpoints = Some res"
proof (cases "read_start fp self interval segment maxduration maxpoints")
  case (Inl e)
  then show ?thesis by (simp add: read_all_error)
next
  case (Inr st)
  obtain sp n cap where st: "st = (sp, n, cap)" by (cases st) auto
  have b: "0 \<le> sp" "sp + n \<le> len self" "0 < cap"
    using read_start_bounds [OF Inr [unfolded st] assms(1)] by auto
  show ?thesis
  proof (cases "h5' self")
    case None
    then have "n \<le> 0" using b by (simp add: len_def)
    then have "gen_next fp self (Suspended st) = Inr None" by (simp add: st read_loop_def)
    then show ?thesis by (simp add: read_all_start [OF Inr] drain_stop)
  next
    case (Some s)
    then have r: "responsive s" using assms(2) by simp
    have "sp + n \<le> h5_len s" using b Some by (simp add: len_def)
    from drain_terminates [OF Some r b(1,3) this]
    show ?thesis by (simp add: read_all_start [OF Inr] st)
  qed
qed

theorem read_terminates_witness:
  "\<exists>res. read_all exact_points chan (Some \<lparr>start = 0, end' = 1 / 20\<rparr>) None (Some (1 / 50)) None = Some res"
proof -
  have a: "0 < MAXPOINTS chan" by (simp add: chan_def)
  have b: "case h5' chan of None \<Rightarrow> True | Some s \<Rightarrow> responsive s"
    by (simp add: chan_def responsive_list_store)
  from read_terminates [OF a b] show ?thesis .
qed

section \<open>C6: both addressings\<close>

theorem read_construction_counterexample:
  "read timed (Some \<lparr>start = 0, end' = 1\<rparr>) (Some (0, 3)) None None
     = Created (Some \<lparr>start = 0, end' = 1\<rparr>) (Some (0, 3)) None None
   \<and> gen_next exact_points timed (read timed (Some \<lparr>start = 0, end' = 1\<rparr>) (Some (0, 3)) None None)
     = Inl ValueError"
  by (simp add: read_def read_start_def)

text \<open>
  Claim C6, amended. A read given both an interval and a segment fails with \<open>ValueError\<close>
  whatever their values, and it fails when the generator is first advanced: the call
  itself returns a generator and raises nothing.
\<close>

theorem both_addressings_rejected:
  "gen_next fp self (read self (Some interval) (Some segment) maxduration maxpoints) = Inl ValueError
   \<and> read_all fp self (Some interval) (Some segment) maxduration maxpoints = Some (Inl ValueError)"
proof -
  have "read_start fp self (Some interval) (Some segment) maxduration maxpoints = Inl ValueError"
    by (simp add: read_start_def)
  then show ?thesis by (simp add: read_def read_all_error)
qed

theorem both_addressings_rejected_witness:
  "gen_next exact_points chan (read chan (Some \<lparr>start = 0, end' = 1 / 20\<rparr>) (Some (0, 5)) None (Some 3))
     = Inl ValueError
   \<and> read_all exact_points chan (Some \<lparr>start = 0, end' = 1 / 20\<rparr>) (Some (0, 5)) None (Some 3)
     = Some (Inl ValueError)"
  using both_addressings_rejected [where self = chan and interval = "\<lparr>start = 0, end' = 1 / 20\<rparr>"
      and segment = "(0, 5)" and maxduration = None and maxpoints = "Some 3"]
  by simp

section \<open>C7: appending a series\<close>

theorem append_mismatch_counterexample:
  "append h5_extend_clock h5_extend_signal series_times chan (Some store0)
      (TimeSeries [1 / 2, 3 / 5] [12, 13])
    = Inr (store0\<lparr>h5_values := (h5_values store0)(''http://example.org/rec/chan'' \<mapsto> [10, 11, 12, 13])\<rparr>)"
  by (simp add: append_def h5_extend_signal_def chan_def store0_def)

text \<open>
  Claim C7, amended. \<open>append\<close> does not compare the clock variant of the series with the
  one of the signal. On a signal without an explicit clock it hands the values of the
  series to the store, whatever the series; an explicit series appended to a uniform
  signal is accepted and its timestamps are dropped. On a signal with an explicit clock it
  hands the timestamps of the series to the store first, then the values.
\<close>

theorem append_forwards:
  "((\<forall>u ts. clock self \<noteq> Some (Clock u ts)) \<longrightarrow>
      append ec es tm self (Some h) series = es (uri self) (data_of series) h)
   \<and> (clock self = Some (Clock u ts) \<longrightarrow>
      append ec es tm self (Some h) series =
        (case tm series of
           Inl e \<Rightarrow> Inl e
         | Inr new_times \<Rightarrow>
             (case ec u new_times h of
                Inl e \<Rightarrow> Inl e
              | Inr h1 \<Rightarrow> es (uri self) (data_of series) h1)))
   \<and> (clock self = Some (UniformClock r) \<and> h5_values h (uri self) = Some old \<longrightarrow>
      append h5_extend_clock h5_extend_signal series_times self (Some h) (TimeSeries times' d)
        = Inr (h\<lparr>h5_values := (h5_values h)(uri self \<mapsto> old @ d)\<rparr>))"
  by (auto simp: append_def h5_extend_signal_def split: option.splits clock.splits sum.splits)

theorem append_forwards_witness:
  "append h5_extend_clock h5_extend_signal series_times chan (Some store0)
      (UniformTimeSeries [12, 13] 100)
     = Inr (store0\<lparr>h5_values := (h5_values store0)(''http://example.org/rec/chan'' \<mapsto> [10, 11, 12, 13])\<rparr>)
   \<and> append h5_extend_clock h5_extend_signal series_times timed (Some store0)
      (TimeSeries [1 / 2, 3 / 5] [5, 6])
     = Inr (store0\<lparr>h5_clocks := (h5_clocks store0)(''http://example.org/rec/clock'' \<mapsto>
                                     [0, 1 / 10, 3 / 10, 4 / 10, 1 / 2, 3 / 5]),
                    h5_values := (h5_values store0)(''http://example.org/rec/timed'' \<mapsto> [1, 2, 3, 4, 5, 6])\<rparr>)
   \<and> append h5_extend_clock h5_extend_signal series_times chan (Some store0)
      (TimeSeries [1 / 2, 3 / 5] [12, 13])
     = Inr (store0\<lparr>h5_values := (h5_values store0)(''http://example.org/rec/chan'' \<mapsto> [10, 11, 12, 13])\<rparr>)"
proof -
  have a: "\<forall>u ts. clock chan \<noteq> Some (Clock u ts)" by (simp add: chan_def)
  have b: "clock timed = Some (Clock ''http://example.org/rec/clock'' [0, 1 / 10, 3 / 10, 4 / 10])"
    by (simp add: timed_def)
  have c: "clock chan = Some (UniformClock 100) \<and> h5_values store0 (uri chan) = Some [10, 11]"
    by (simp add: chan_def store0_def)
  have 1: "append h5_extend_clock h5_extend_signal series_times chan (Some store0)
      (UniformTimeSeries [12, 13] 100)
     = Inr (store0\<lparr>h5_values := (h5_values store0)(''http://example.org/rec/chan'' \<mapsto> [10, 11, 12, 13])\<rparr>)"
    using append_forwards [where self = chan and ec = h5_extend_clock and es = h5_extend_signal
        and tm = series_times and h = store0 and series = "UniformTimeSeries [12, 13] 100"] a
    by (simp add: h5_extend_signal_def chan_def store0_def)
  have 2: "append h5_extend_clock h5_extend_signal series_times timed (Some store0)
      (TimeSeries [1 / 2, 3 / 5] [5, 6])
     = Inr (store0\<lparr>h5_clocks := (h5_clocks store0)(''http://example.org/rec/clock'' \<mapsto>
                                     [0, 1 / 10, 3 / 10, 4 / 10, 1 / 2, 3 / 5]),
                    h5_values := (h5_values store0)(''http://example.org/rec/timed'' \<mapsto> [1, 2, 3, 4, 5, 6])\<rparr>)"
    using append_forwards [where self = timed and ec = h5_extend_clock and es = h5_extend_signal
        and tm = series_times and h = store0 and series = "TimeSeries [1 / 2, 3 / 5] [5, 6]"
        and u = "''http://example.org/rec/clock''" and ts = "[0, 1 / 10, 3 / 10, 4 / 10]"] b
    by (simp add: h5_extend_signal_def h5_extend_clock_def timed_def store0_def)
  have "append h5_extend_clock h5_extend_signal series_times chan (Some store0)
      (TimeSeries [1 / 2, 3 / 5] [12, 13])
     = Inr (store0\<lparr>h5_values := (h5_values store0)(uri chan \<mapsto> [10, 11] @ [12, 13])\<rparr>)"
    using append_forwards [where self = chan and h = store0 and r = 100 and old = "[10, 11]"
        and times' = "[1 / 2, 3 / 5]" and d = "[12, 13]"] c
    by blast
  then have 3: "append h5_extend_clock h5_extend_signal series_times chan (Some store0)
      (TimeSeries [1 / 2, 3 / 5] [12, 13])
     = Inr (store0\<lparr>h5_values := (h5_values store0)(''http://example.org/rec/chan'' \<mapsto> [10, 11, 12, 13])\<rparr>)"
    by (simp add: chan_def)
  show ?thesis using 1 2 3 by blast
qed

section \<open>C8: adding a signal to a recording\<close>

theorem add_signal_owned_counterexample:
  "uri sig_elsewhere \<notin> set (signal_uris' rec0) \<and> add_signal rec0 sig_elsewhere = Inl InOtherRecording"
  by (simp add: add_signal_def rec0_def new_recording_def sig_elsewhere_def)

text \<open>
  Claim C8, amended. \<open>add_signal\<close> fails when the URI of the signal is already present;
  it fails as well when the URI is new and the signal's recording reference is set and
  differs from the URI of the recording; a failure returns no new recording, the recording
  is as it was. Otherwise it sets the signal's recording, stores the signal under its URI,
  appends the URI to the list and returns the 0-origin index of the insertion, at which
  \<open>get_signal\<close> finds the signal.
\<close>

theorem add_signal_checks:
  "(uri signal \<in> set (signal_uris' self) \<longrightarrow> add_signal self signal = Inl AlreadyInRecording)
   \<and> (uri signal \<notin> set (signal_uris' self) \<and> (\<exists>r. recording signal = Some r \<and> r \<noteq> uri self) \<longrightarrow>
        add_signal self signal = Inl InOtherRecording)
   \<and> (uri signal \<notin> set (signal_uris' self)
        \<and> (recording signal = None \<or> recording signal = Some (uri self)) \<longrightarrow>
        (\<exists>self'. add_signal self signal = Inr (int (length (signal_uris' self)), self')
           \<and> signals' self' = (signals' self)(uri signal \<mapsto> signal\<lparr>recording := Some (obj_str self)\<rparr>)
           \<and> signal_uris' self' = signal_uris' self @ [uri signal]
           \<and> get_signal self' None (int (length (signal_uris' self)))
               = Inr (signal\<lparr>recording := Some (obj_str self)\<rparr>)))"
proof (intro conjI impI)
  assume "uri signal \<in> set (signal_uris' self)"
  then show "add_signal self signal = Inl AlreadyInRecording" by (simp add: add_signal_def)
next
  assume "uri signal \<notin> set (signal_uris' self) \<and> (\<exists>r. recording signal = Some r \<and> r \<noteq> uri self)"
  then show "add_signal self signal = Inl InOtherRecording" by (auto simp: add_signal_def)
next
  assume a: "uri signal \<notin> set (signal_uris' self)
        \<and> (recording signal = None \<or> recording signal = Some (uri self))"
  then have "add_signal self signal =
           Inr (int (length (signal_uris' self)),
                self\<lparr>signals' := (signals' self)(uri signal \<mapsto> signal\<lparr>recording := Some (obj_str self)\<rparr>),
                     signal_uris' := signal_uris' self @ [uri signal]\<rparr>)"
    by (intro add_signal_ok) auto
  then show "\<exists>self'. add_signal self signal = Inr (int (length (signal_uris' self)), self')
           \<and> signals' self' = (signals' self)(uri signal \<mapsto> signal\<lparr>recording := Some (obj_str self)\<rparr>)
           \<and> signal_uris' self' = signal_uris' self @ [uri signal]
           \<and> get_signal self' None (int (length (signal_uris' self)))
               = Inr (signal\<lparr>recording := Some (obj_str self)\<rparr>)"
    using get_signal_last [of self "uri signal"] by simp
qed

theorem add_signal_checks_witness:
  "add_signal rec_b sig_b = Inl AlreadyInRecording
   \<and> add_signal rec0 sig_elsewhere = Inl InOtherRecording
   \<and> (\<exists>self'. add_signal rec0 sig_b = Inr (0, self')
        \<and> signal_uris' self' = [''http://example.org/rec/b'']
        \<and> get_signal self' None 0 = Inr (sig_b\<lparr>recording := Some ''<Recording object>''\<rparr>))"
proof -
  have a: "uri sig_b \<in> set (signal_uris' rec_b)" by (simp add: sig_b_def rec_b_def)
  have b: "uri sig_elsewhere \<notin> set (signal_uris' rec0)
           \<and> (\<exists>r. recording sig_elsewhere = Some r \<and> r \<noteq> uri rec0)"
    by (simp add: sig_elsewhere_def rec0_def new_recording_def)
  have c: "uri sig_b \<notin> set (signal_uris' rec0)
           \<and> (recording sig_b = None \<or> recording sig_b = Some (uri rec0))"
    by (simp add: sig_b_def rec0_def new_recording_def)
  have 1: "add_signal rec_b sig_b = Inl AlreadyInRecording"
    using add_signal_checks [where signal = sig_b and self = rec_b] a by blast
  have 2: "add_signal rec0 sig_elsewhere = Inl InOtherRecording"
    using add_signal_checks [where signal = sig_elsewhere and self = rec0] b by blast
  have 3: "\<exists>self'. add_signal rec0 sig_b = Inr (0, self')
        \<and> signal_uris' self' = [''http://example.org/rec/b'']
        \<and> get_signal self' None 0 = Inr (sig_b\<lparr>recording := Some ''<Recording object>''\<rparr>)"
    using add_signal_checks [where signal = sig_b and self = rec0] c
    by (auto simp: rec0_def new_recording_def sig_b_def)
  show ?thesis using 1 2 3 by blast
qed

section \<open>C9: the order of signals\<close>

theorem get_signal_index_counterexample:
  "add_signal rec0 sig_b = Inr (0, rec_b) \<and> add_signal rec_b sig_a = Inr (1, rec_ba)
   \<and> signals rec_ba = Inr [sig_a\<lparr>recording := Some ''<Recording object>''\<rparr>,
                           sig_b\<lparr>recording := Some ''<Recording object>''\<rparr>]
   \<and> get_signal rec_ba None 0 = Inr (sig_b\<lparr>recording := Some ''<Recording object>''\<rparr>)
   \<and> sig_b\<lparr>recording := Some ''<Recording object>''\<rparr> \<noteq> sig_a\<lparr>recording := Some ''<Recording object>''\<rparr>"
  using rec_b_add rec_ba_add rec_ba_signals rec_ba_get0 by (simp add: sig_a_def sig_b_def)

text \<open>
  Claim C9, amended. \<open>signals\<close> returns the signals in ascending order of URI.
  \<open>get_signal\<close> without a URI resolves the index \<open>i\<close> to the \<open>i\<close>-th signal in the order
  of insertion, the index \<open>add_signal\<close> returned, not to \<open>signals()[i]\<close>.
\<close>

theorem signals_sorted_index_by_insertion:
  assumes "recording_inv self"
  shows "(\<exists>ss. signals self = Inr ss \<and> map uri ss = sort (signal_uris' self) \<and> sorted (map uri ss))
     \<and> (\<forall>i. 0 \<le> i \<and> i < int (length (signal_uris' self)) \<longrightarrow>
          (\<exists>s. get_signal self None i = Inr s \<and> uri s = signal_uris' self ! nat i))"
proof -
  have m: "\<forall>u \<in> set (signal_uris' self). \<exists>s. signals' self u = Some s \<and> uri s = u"
    using assms by (auto simp: recording_inv_def list_all_iff split: option.splits)
  then have "\<forall>u \<in> set (sort (signal_uris' self)). \<exists>s. signals' self u = Some s \<and> uri s = u"
    by simp
  from lookup_all_inv [OF this]
  have 1: "\<exists>ss. signals self = Inr ss \<and> map uri ss = sort (signal_uris' self) \<and> sorted (map uri ss)"
    by (auto simp: signals_def)
  have 2: "\<exists>s. get_signal self None i = Inr s \<and> uri s = signal_uris' self ! nat i"
    if "0 \<le> i \<and> i < int (length (signal_uris' self))" for i
  proof -
    have "nat i < length (signal_uris' self)" using that by linarith
    then have "signal_uris' self ! nat i \<in> set (signal_uris' self)" by (rule nth_mem)
    with m obtain s where "signals' self (signal_uris' self ! nat i) = Some s"
      "uri s = signal_uris' self ! nat i" by blast
    then show ?thesis using that by (simp add: get_signal_def py_index_def Let_def)
  qed
  show ?thesis using 1 2 by blast
qed

theorem signals_sorted_index_by_insertion_witness:
  "(\<exists>ss. signals rec_ba = Inr ss
       \<and> map uri ss = [''http://example.org/rec/a'', ''http://example.org/rec/b''])
   \<and> (\<exists>s. get_signal rec_ba None 0 = Inr s \<and> uri s = ''http://example.org/rec/b'')"
proof -
  have inv: "recording_inv rec_ba"
    by (simp add: recording_inv_def rec_ba_def sig_a_def sig_b_def)
  have srt: "sort (signal_uris' rec_ba) = [''http://example.org/rec/a'', ''http://example.org/rec/b'']"
    by (simp add: rec_ba_def)
  have nth: "signal_uris' rec_ba ! nat 0 = ''http://example.org/rec/b''" "length (signal_uris' rec_ba) = 2"
    by (simp_all add: rec_ba_def)
  from signals_sorted_index_by_insertion [OF inv] srt nth show ?thesis
    by (metis int_ops(3) zero_less_numeral order_refl)
qed

section \<open>C10: clamping an index range\<close>

text \<open>
  Claim C10. A read of the index range \<open>(a, b)\<close>, in either order, is not rejected: its
  start is \<open>max 0 (min a b)\<close>, its end is lowered to the last stored sample,
  \<open>min (len - 1) (max a b)\<close>, and when the clamped range is empty, as when the start lies
  at or beyond the length of the signal, the read yields no segment and raises nothing.
\<close>

theorem index_range_clamped:
  assumes "resolve_maxpoints fp (MAXPOINTS self) (rate self) maxduration maxpoints = Inr cap"
  shows "read_start fp self None (Some (a, b)) maxduration maxpoints =
           Inr (max 0 (min a b), min (len self - 1) (max a b) - max 0 (min a b) + 1, cap)
       \<and> (min (len self - 1) (max a b) < max 0 (min a b) \<longrightarrow>
            read_all fp self None (Some (a, b)) maxduration maxpoints = Some (Inr []))
       \<and> (len self \<le> min a b \<longrightarrow>
            read_all fp self None (Some (a, b)) maxduration maxpoints = Some (Inr []))"
proof -
  let ?sp = "max 0 (min a b)" and ?n = "min (len self - 1) (max a b) - max 0 (min a b) + 1"
  have st: "read_start fp self None (Some (a, b)) maxduration maxpoints = Inr (?sp, ?n, cap)"
    using assms by (auto simp: read_start_no_interval segment_range_def Let_def)
  have empty: "read_all fp self None (Some (a, b)) maxduration maxpoints = Some (Inr [])"
    if "?n \<le> 0"
  proof -
    have "gen_next fp self (Suspended (?sp, ?n, cap)) = Inr None"
      using read_loop_done [OF that] by simp
    then show ?thesis by (simp add: read_all_start [OF st] drain_stop)
  qed
  show ?thesis using st empty by auto
qed

theorem index_range_clamped_witness:
  "read_start exact_points timed None (Some (-5, 2)) None (Some 2) = Inr (0, 3, 2)
   \<and> read_start exact_points timed None (Some (9, 7)) None (Some 2) = Inr (7, -3, 2)
   \<and> read_all exact_points timed None (Some (9, 7)) None (Some 2) = Some (Inr [])"
proof -
  have a: "resolve_maxpoints exact_points (MAXPOINTS timed) (rate timed) None (Some 2) = Inr 2"
    by (simp add: resolve_maxpoints_def truthy_def timed_def)
  have l: "len timed = 4" by (simp add: len_def timed_def list_store_def)
  from index_range_clamped [OF a, where a = "-5" and b = 2]
    index_range_clamped [OF a, where a = 9 and b = 7] l
  show ?thesis by simp
qed

end
